theory Spec2Isabelle
  imports
    Complex_Main
    "HOL-Library.Char_ord"
    "HOL-Library.List_Lexorder"
    "HOL-Library.Product_Lexorder"
    "HOL-Library.Sublist"
    "HOL-Library.Multiset"
begin

section \<open>Data model of \<open>analyze_full.py\<close>\<close>

text \<open>
  A cell of the data frame is either a value or NaN; NaN (also Python's \<open>None\<close> in an
  object column) is \<open>None\<close>. \<open>pd.isna\<close> is the test for it. The text columns of the
  registration sheet hold strings.
\<close>

type_synonym cell = "string option"

definition isna :: "'a option \<Rightarrow> bool" where
  "isna c = (c = None)"

text \<open>
  The closed set of status codes that \<open>determine_qualification\<close> returns (string
  constants in the source).
\<close>

datatype status =
    INCOMPLETE_REGISTRATION
  | TERMS_DECLINED
  | NO_PROFILE_URL
  | DUPLICATE_ENTRY
  | HARD_QUALIFIED
  | QUALIFIED_TIER2
  | FLAGGED_DIFF_ACCOUNT
  | DISQUALIFIED
  | CAUTION_PRE2025
  | REVIEW_NEEDED
  | REVIEW_PRE2025
  | UNKNOWN

text \<open>
  One line of \<open>data.csv\<close> as \<open>pd.read_csv\<close> delivers it. The column \<open>Terms\<close> may be
  absent from the sheet altogether (\<open>'Terms' in row\<close> is then false): the outer
  \<open>option\<close> of \<open>Terms_in\<close> is the presence of the column, the inner one the cell.
\<close>

record registration =
  Name_in :: cell
  Email_Address_in :: cell
  Skills_Boost_Email_in :: cell
  Phone_Number_in :: cell
  Terms_in :: "cell option"
  Profile_URL_in :: cell

text \<open>
  A row of the working data frame \<open>df\<close>: the columns of the sheet and the columns that
  \<open>main\<close> adds. \<open>duplicate_group\<close> and \<open>duplicate_position\<close> are NaN for a row that
  \<open>groupby\<close> drops (missing phone number).
\<close>

record row =
  Name :: cell
  Email_Address :: cell
  Skills_Boost_Email :: cell
  Phone_Number :: cell
  Terms :: "cell option"
  Skills_Boost_Public_Profile_URL :: cell
  is_duplicate :: bool
  duplicate_group :: "nat option"
  duplicate_position :: "nat option"
  email_matches :: bool
  email_has_gdg_domain :: bool
  skillsboost_has_gdg_domain :: bool
  profile_creation_year :: "int option"
  profile_badge_count :: "int option"
  profile_league :: "string option"
  profile_points :: "int option"
  profile_status :: "string option"
  qualification_status :: "status option"
  qualification_reason :: "string option"

section \<open>Strings\<close>

text \<open>\<open>str(n)\<close> for Python integers: the decimal numeral, with a sign when negative.\<close>

definition digit_char :: "nat \<Rightarrow> char" where
  "digit_char d = char_of (48 + d)"

function str_nat :: "nat \<Rightarrow> string" where
  "str_nat n = (if n < 10 then [digit_char n] else str_nat (n div 10) @ [digit_char (n mod 10)])"
  by pat_completeness auto
termination
  by (relation "measure id") auto

declare str_nat.simps [simp del]

definition str_int :: "int \<Rightarrow> string" where
  "str_int i = (if i < 0 then CHR ''-'' # str_nat (nat (- i)) else str_nat (nat i))"

text \<open>
  \<open>s.strip()\<close>: leading and trailing white space removed. The white space of the ASCII
  range is modelled (tab, line feed, vertical tab, form feed, carriage return, the
  separators 28 to 31 and the space).
\<close>

definition is_space :: "char \<Rightarrow> bool" where
  "is_space c = (let n = (of_char c :: nat) in (9 \<le> n \<and> n \<le> 13) \<or> (28 \<le> n \<and> n \<le> 32))"

definition strip :: "string \<Rightarrow> string" where
  "strip s = rev (dropWhile is_space (rev (dropWhile is_space s)))"

section \<open>The rule engine: \<open>determine_qualification\<close>\<close>

text \<open>
  Python truthiness of an optional integer (\<open>if x and ...\<close>): \<open>None\<close> and \<open>0\<close> are
  false. \<open>x or 0\<close> replaces a false value by \<open>0\<close>.
\<close>

definition truthy :: "int option \<Rightarrow> bool" where
  "truthy x = (case x of None \<Rightarrow> False | Some v \<Rightarrow> v \<noteq> 0)"

definition or_zero :: "int option \<Rightarrow> int" where
  "or_zero x = (case x of None \<Rightarrow> 0 | Some v \<Rightarrow> v)"

text \<open>The conditions of the rules, in the order of the source.\<close>

definition incomplete_registration :: "row \<Rightarrow> bool" where
  "incomplete_registration r =
     (isna (Name r) \<or> isna (Email_Address r) \<or> isna (Skills_Boost_Email r) \<or> isna (Phone_Number r))"

definition terms_declined :: "row \<Rightarrow> bool" where
  "terms_declined r =
     (case Terms r of None \<Rightarrow> False | Some v \<Rightarrow> v \<noteq> Some ''Yes, I accept the terms'')"

definition no_profile_url :: "row \<Rightarrow> bool" where
  "no_profile_url r =
     (case Skills_Boost_Public_Profile_URL r of None \<Rightarrow> True | Some u \<Rightarrow> strip u = [])"

definition duplicate_entry :: "row \<Rightarrow> bool" where
  "duplicate_entry r =
     (is_duplicate r \<and> (case duplicate_position r of None \<Rightarrow> False | Some p \<Rightarrow> p > 1))"

definition no_badges :: "row \<Rightarrow> bool" where
  "no_badges r = (profile_badge_count r = Some 0 \<or> isna (profile_badge_count r))"

definition no_points :: "row \<Rightarrow> bool" where
  "no_points r = (profile_points r = Some 0 \<or> isna (profile_points r))"

definition no_league :: "row \<Rightarrow> bool" where
  "no_league r = (isna (profile_league r) \<or> profile_league r = Some [])"

definition hard_qualified :: "row \<Rightarrow> bool" where
  "hard_qualified r =
     (email_has_gdg_domain r \<and> profile_creation_year r = Some 2025 \<and>
      no_badges r \<and> no_points r \<and> no_league r)"

definition qualified_tier2 :: "row \<Rightarrow> bool" where
  "qualified_tier2 r =
     (email_matches r \<and> profile_creation_year r = Some 2025 \<and>
      no_badges r \<and> no_league r \<and> no_points r)"

definition flagged_diff_account :: "row \<Rightarrow> bool" where
  "flagged_diff_account r = (\<not> email_matches r \<and> skillsboost_has_gdg_domain r)"

definition disqualified :: "row \<Rightarrow> bool" where
  "disqualified r =
     (truthy (profile_badge_count r) \<and>
      (case profile_badge_count r of None \<Rightarrow> False | Some b \<Rightarrow> b > 0))"

definition pre2025 :: "row \<Rightarrow> bool" where
  "pre2025 r =
     (truthy (profile_creation_year r) \<and>
      (case profile_creation_year r of None \<Rightarrow> False | Some y \<Rightarrow> y < 2025))"

definition caution_pre2025 :: "row \<Rightarrow> bool" where
  "caution_pre2025 r = (pre2025 r \<and> no_badges r \<and> no_league r \<and> no_points r)"

text \<open>
  The rules that look at the profile evidence (from \<open>HARD_QUALIFIED\<close> on). The
  position in the reason of a duplicate is printed as the integer it is.
\<close>

definition evidence_rules :: "row \<Rightarrow> status \<times> string" where
  "evidence_rules r =
     (if hard_qualified r then
        (HARD_QUALIFIED, ''GDG domain + 2025 creation + empty profile'')
      else if qualified_tier2 r then
        (QUALIFIED_TIER2, ''Matching emails + 2025 creation + empty profile'')
      else if flagged_diff_account r then
        (FLAGGED_DIFF_ACCOUNT, ''Different email but Skills Boost has GDG domain'')
      else if disqualified r then
        (DISQUALIFIED, ''Has '' @ str_int (the (profile_badge_count r)) @ '' badges'')
      else if caution_pre2025 r then
        (CAUTION_PRE2025,
         ''Created in '' @ str_int (the (profile_creation_year r)) @ '' but empty profile'')
      else if profile_creation_year r = Some 2025 then
        (REVIEW_NEEDED,
         ''2025 account with '' @ str_int (or_zero (profile_badge_count r)) @ '' badges, '' @
         str_int (or_zero (profile_points r)) @ '' points'')
      else if pre2025 r then
        (REVIEW_PRE2025,
         ''Pre-2025 account ('' @ str_int (the (profile_creation_year r)) @ '') needs review'')
      else
        (UNKNOWN, ''Could not determine profile details''))"

definition determine_qualification :: "row \<Rightarrow> status \<times> string" where
  "determine_qualification r =
     (if incomplete_registration r then
        (INCOMPLETE_REGISTRATION, ''Missing required fields (Name, Email, or Phone)'')
      else if terms_declined r then
        (TERMS_DECLINED, ''Terms and conditions not accepted'')
      else if no_profile_url r then
        (NO_PROFILE_URL, ''Skills Boost profile URL missing'')
      else if duplicate_entry r then
        (DUPLICATE_ENTRY,
         ''Duplicate entry #'' @ str_nat (the (duplicate_position r)) @ '' for same phone number'')
      else evidence_rules r)"

section \<open>The reserved-domain test: \<open>str.contains\<close>\<close>

text \<open>
  \<open>Series.str.contains(pat, na=False)\<close> treats \<open>pat\<close> as a regular expression and
  searches it anywhere in the cell (\<open>re.search\<close>); a NaN cell gives \<open>False\<close>. The
  pattern of the source, \<open>.gdgocbcet@gmail.com\<close>, has one kind of metacharacter,
  the dot, which stands for any character but the line feed; every other character of
  it stands for itself.
\<close>

datatype pat = AnyChar | Lit char

definition re_compile :: "string \<Rightarrow> pat list" where
  "re_compile p = map (\<lambda>c. if c = CHR ''.'' then AnyChar else Lit c) p"

fun pat_match :: "pat \<Rightarrow> char \<Rightarrow> bool" where
  "pat_match AnyChar c = (c \<noteq> CHR 0x0A)"
| "pat_match (Lit d) c = (c = d)"

fun match_here :: "pat list \<Rightarrow> string \<Rightarrow> bool" where
  "match_here [] s = True"
| "match_here (p # ps) [] = False"
| "match_here (p # ps) (c # cs) = (pat_match p c \<and> match_here ps cs)"

fun re_search :: "pat list \<Rightarrow> string \<Rightarrow> bool" where
  "re_search ps [] = match_here ps []"
| "re_search ps (c # cs) = (match_here ps (c # cs) \<or> re_search ps cs)"

definition str_contains :: "string \<Rightarrow> cell \<Rightarrow> bool" where
  "str_contains p c = (case c of None \<Rightarrow> False | Some s \<Rightarrow> re_search (re_compile p) s)"

definition gdg_pattern :: string where
  "gdg_pattern = ''.gdgocbcet@gmail.com''"

section \<open>Duplicate detection and the derived columns\<close>

text \<open>
  \<open>df.duplicated(subset=['Phone Number'], keep=False)\<close>: a row is marked when its key
  occurs more than once in the column. pandas counts missing keys as equal to each
  other here.
\<close>

definition duplicated_keep_False :: "'k list \<Rightarrow> bool list" where
  "duplicated_keep_False ks = map (\<lambda>k. 1 < count_list ks k) ks"

definition dropna :: "'a option list \<Rightarrow> 'a list" where
  "dropna cs = map the (filter (\<lambda>c. \<not> isna c) cs)"

text \<open>
  \<open>df.groupby('Phone Number')\<close> drops the rows with a missing key and sorts the groups
  by key. \<open>ngroup()\<close> numbers the groups from 0 in that order, so the number of a key is
  the count of distinct keys below it; \<open>cumcount()\<close> numbers the rows of each group
  from 0 in file order. Both give NaN on a dropped row.
\<close>

definition group_keys :: "('k::linorder) option list \<Rightarrow> 'k list" where
  "group_keys ks = sort (remdups (dropna ks))"

definition ngroup :: "('k::linorder) option list \<Rightarrow> nat option list" where
  "ngroup ks = map (map_option (\<lambda>v. length (filter (\<lambda>u. u < v) (group_keys ks)))) ks"

definition cumcount :: "'k option list \<Rightarrow> nat option list" where
  "cumcount ks =
     map (\<lambda>i. case ks ! i of None \<Rightarrow> None
                | Some v \<Rightarrow> Some (count_list (take i ks) (Some v))) [0..<length ks]"

text \<open>
  A sheet line as a row of \<open>df\<close>; the columns that \<open>main\<close> adds later start out
  unset.
\<close>

definition new_row :: "registration \<Rightarrow> row" where
  "new_row d =
     \<lparr>Name = Name_in d, Email_Address = Email_Address_in d,
      Skills_Boost_Email = Skills_Boost_Email_in d, Phone_Number = Phone_Number_in d,
      Terms = Terms_in d, Skills_Boost_Public_Profile_URL = Profile_URL_in d,
      is_duplicate = False, duplicate_group = None, duplicate_position = None,
      email_matches = False, email_has_gdg_domain = False,
      skillsboost_has_gdg_domain = False,
      profile_creation_year = None, profile_badge_count = None,
      profile_league = None, profile_points = None, profile_status = None,
      qualification_status = None, qualification_reason = None\<rparr>"

definition mark_duplicates :: "row list \<Rightarrow> row list" where
  "mark_duplicates df =
     (let ks = map Phone_Number df in
      map (\<lambda>i. (df ! i)\<lparr>is_duplicate := duplicated_keep_False ks ! i,
                         duplicate_group := ngroup ks ! i,
                         duplicate_position := map_option (\<lambda>c. c + 1) (cumcount ks ! i)\<rparr>)
        [0..<length df])"

text \<open>
  \<open>df.sort_values(['duplicate_group', 'duplicate_position'])\<close>: a stable sort on the
  two columns, NaN last in each.
\<close>

definition na_last :: "nat option \<Rightarrow> nat \<times> nat" where
  "na_last c = (case c of None \<Rightarrow> (1, 0) | Some v \<Rightarrow> (0, v))"

definition sort_columns :: "row \<Rightarrow> (nat \<times> nat) \<times> (nat \<times> nat)" where
  "sort_columns r = (na_last (duplicate_group r), na_last (duplicate_position r))"

definition sort_values :: "row list \<Rightarrow> row list" where
  "sort_values df = sort_key sort_columns df"

text \<open>
  The grouping step of \<open>main\<close>: the sheet with the three duplicate columns, sorted.
\<close>

definition grouper :: "registration list \<Rightarrow> row list" where
  "grouper ds = sort_values (mark_duplicates (map new_row ds))"

text \<open>The sheet line a row came from, and the rows of a data frame with a given phone number.\<close>

definition registration_of :: "row \<Rightarrow> registration" where
  "registration_of r =
     \<lparr>Name_in = Name r, Email_Address_in = Email_Address r,
      Skills_Boost_Email_in = Skills_Boost_Email r, Phone_Number_in = Phone_Number r,
      Terms_in = Terms r, Profile_URL_in = Skills_Boost_Public_Profile_URL r\<rparr>"

definition members :: "string \<Rightarrow> row list \<Rightarrow> row list" where
  "members p df = filter (\<lambda>r. Phone_Number r = Some p) df"

text \<open>
  Row \<open>i\<close> of \<open>mark_duplicates df\<close>, written out column by column; \<open>group_rank\<close> is the
  number \<open>ngroup\<close> gives to a key.
\<close>

definition group_rank :: "('k::linorder) option list \<Rightarrow> 'k \<Rightarrow> nat" where
  "group_rank ks v = length (filter (\<lambda>u. u < v) (group_keys ks))"

definition marked_row :: "row list \<Rightarrow> nat \<Rightarrow> row" where
  "marked_row df i =
     (df ! i)\<lparr>is_duplicate := 1 < count_list (map Phone_Number df) (Phone_Number (df ! i)),
              duplicate_group := map_option (group_rank (map Phone_Number df)) (Phone_Number (df ! i)),
              duplicate_position :=
                map_option (\<lambda>v. count_list (take i (map Phone_Number df)) (Some v) + 1)
                  (Phone_Number (df ! i))\<rparr>"

definition add_email_columns :: "row \<Rightarrow> row" where
  "add_email_columns r =
     r\<lparr>email_matches :=
         (case Email_Address r of None \<Rightarrow> False
          | Some a \<Rightarrow> (case Skills_Boost_Email r of None \<Rightarrow> False | Some b \<Rightarrow> a = b)),
       email_has_gdg_domain := str_contains gdg_pattern (Email_Address r),
       skillsboost_has_gdg_domain := str_contains gdg_pattern (Skills_Boost_Email r)\<rparr>"

definition init_profile_columns :: "row \<Rightarrow> row" where
  "init_profile_columns r =
     r\<lparr>profile_creation_year := None, profile_badge_count := None, profile_league := None,
       profile_points := None, profile_status := None, qualification_status := None,
       qualification_reason := None\<rparr>"

text \<open>The data frame as it stands when the processing loop of \<open>main\<close> starts.\<close>

definition prepare :: "registration list \<Rightarrow> row list" where
  "prepare ds = map (\<lambda>r. init_profile_columns (add_email_columns r)) (grouper ds)"

section \<open>The profile lookup: \<open>check_profile\<close>\<close>

text \<open>
  What the \<open>try\<close> block of one attempt extracts from the fetched page. The HTTP request,
  the HTML parser and the two regular expressions are outside the model: an attempt
  either raises, with a message, or yields these fields. The web is a function of the
  number of requests made so far and the URL, so that two requests for one URL may
  differ. The list \<open>reqs\<close> holds the URLs requested so far.
\<close>

record scraped =
  creation_text :: "string option"
  year_found :: "int option"
  badge_elements :: nat
  league_name :: "string option"
  points_found :: "int option"

type_synonym web = "nat \<Rightarrow> string \<Rightarrow> string + scraped"

record profile_data =
  creation_date :: "string option"
  creation_year :: "int option"
  badge_count :: "int option"
  league :: "string option"
  points :: "int option"
  status :: string

definition success_data :: "scraped \<Rightarrow> profile_data" where
  "success_data s =
     \<lparr>creation_date = creation_text s, creation_year = year_found s,
      badge_count = Some (int (badge_elements s)), league = league_name s,
      points = points_found s, status = ''success''\<rparr>"

definition error_data :: "string \<Rightarrow> profile_data" where
  "error_data e =
     \<lparr>creation_date = None, creation_year = None, badge_count = None, league = None,
      points = None, status = ''error: '' @ e\<rparr>"

text \<open>
  The loop \<open>for attempt in range(max_retries)\<close>, from \<open>attempt\<close> on. When the range is
  exhausted without a \<open>return\<close> (only for \<open>max_retries = 0\<close>) Python returns \<open>None\<close>.
\<close>

function check_profile_from ::
  "web \<Rightarrow> string \<Rightarrow> nat \<Rightarrow> nat \<Rightarrow> string list \<Rightarrow> profile_data option \<times> string list" where
  "check_profile_from w url max_retries attempt reqs =
     (if attempt < max_retries then
        (case w (length reqs) url of
           Inr s \<Rightarrow> (Some (success_data s), reqs @ [url])
         | Inl e \<Rightarrow>
             if attempt < max_retries - 1
             then check_profile_from w url max_retries (Suc attempt) (reqs @ [url])
             else (Some (error_data e), reqs @ [url]))
      else (None, reqs))"
  by pat_completeness auto
termination
  by (relation "measure (\<lambda>(w, url, max_retries, attempt, reqs). max_retries - attempt)") auto

declare check_profile_from.simps [simp del]

definition check_profile :: "web \<Rightarrow> string \<Rightarrow> nat \<Rightarrow> string list \<Rightarrow> profile_data option \<times> string list" where
  "check_profile w url max_retries reqs = check_profile_from w url max_retries 0 reqs"

section \<open>The processing loop of \<open>main\<close>\<close>

datatype py_error = ZeroDivisionError | TypeError

definition url_available :: "row \<Rightarrow> bool" where
  "url_available r =
     (case Skills_Boost_Public_Profile_URL r of None \<Rightarrow> False | Some u \<Rightarrow> strip u \<noteq> [])"

definition store_profile :: "profile_data \<Rightarrow> row \<Rightarrow> row" where
  "store_profile pd r =
     r\<lparr>profile_creation_year := creation_year pd, profile_badge_count := badge_count pd,
       profile_league := league pd, profile_points := points pd,
       profile_status := Some (status pd)\<rparr>"

definition set_verdict :: "status \<times> string \<Rightarrow> row \<Rightarrow> row" where
  "set_verdict v r = r\<lparr>qualification_status := Some (fst v), qualification_reason := Some (snd v)\<rparr>"

text \<open>
  One pass of the loop body on a row, with the list of requests before and after.
  \<open>check_profile\<close> is called with its default of 3 attempts; subscripting a \<open>None\<close>
  result would raise \<open>TypeError\<close>.
\<close>

definition process_row :: "web \<Rightarrow> row \<Rightarrow> string list \<Rightarrow> py_error + (row \<times> string list)" where
  "process_row w r reqs =
     (let v = determine_qualification r in
      if fst v \<in> {INCOMPLETE_REGISTRATION, TERMS_DECLINED, NO_PROFILE_URL} then
        Inr ((set_verdict v r)\<lparr>profile_status := Some ''skipped''\<rparr>, reqs)
      else
        let r1 = (if fst v = DUPLICATE_ENTRY then set_verdict v r else r) in
        if url_available r then
          (case check_profile w (the (Skills_Boost_Public_Profile_URL r)) 3 reqs of
             (None, reqs') \<Rightarrow> Inl TypeError
           | (Some pd, reqs') \<Rightarrow>
               let r2 = store_profile pd r1 in
               if fst v \<noteq> DUPLICATE_ENTRY
               then Inr (set_verdict (determine_qualification r2) r2, reqs')
               else Inr (r2, reqs'))
        else Inr (r1, reqs))"

fun process_all :: "web \<Rightarrow> row list \<Rightarrow> string list \<Rightarrow> py_error + (row list \<times> string list)" where
  "process_all w [] reqs = Inr ([], reqs)"
| "process_all w (r # rs) reqs =
     (case process_row w r reqs of
        Inl e \<Rightarrow> Inl e
      | Inr (r', reqs') \<Rightarrow>
          (case process_all w rs reqs' of
             Inl e \<Rightarrow> Inl e
           | Inr (rs', reqs'') \<Rightarrow> Inr (r' # rs', reqs'')))"

section \<open>The summary\<close>

text \<open>
  \<open>Series.value_counts()\<close>: the distinct values with their counts, most frequent
  first. Python's \<open>/\<close> on two integers raises on a zero divisor; its float result is
  modelled as the exact quotient.
\<close>

definition value_counts :: "'a list \<Rightarrow> ('a \<times> nat) list" where
  "value_counts xs = sort_key (\<lambda>p. - int (snd p)) (map (\<lambda>x. (x, count_list xs x)) (remdups xs))"

definition percent_of :: "nat \<Rightarrow> nat \<Rightarrow> py_error + real" where
  "percent_of cnt ntotal =
     (if ntotal = 0 then Inl ZeroDivisionError else Inr (real cnt / real ntotal * 100))"

fun breakdown :: "(status \<times> nat) list \<Rightarrow> nat \<Rightarrow> py_error + (status \<times> nat \<times> real) list" where
  "breakdown [] ntotal = Inr []"
| "breakdown ((s, c) # rest) ntotal =
     (case percent_of c ntotal of
        Inl e \<Rightarrow> Inl e
      | Inr p \<Rightarrow>
          (case breakdown rest ntotal of
             Inl e \<Rightarrow> Inl e
           | Inr ps \<Rightarrow> Inr ((s, c, p) # ps)))"

definition invalid_statuses :: "status list" where
  "invalid_statuses = [INCOMPLETE_REGISTRATION, TERMS_DECLINED, NO_PROFILE_URL, DUPLICATE_ENTRY]"

definition qualified_statuses :: "status list" where
  "qualified_statuses = [HARD_QUALIFIED, QUALIFIED_TIER2]"

definition action_required_statuses :: "status list" where
  "action_required_statuses = [FLAGGED_DIFF_ACCOUNT, REVIEW_NEEDED, CAUTION_PRE2025, REVIEW_PRE2025]"

definition isin :: "status option \<Rightarrow> status list \<Rightarrow> bool" where
  "isin c ss = (case c of None \<Rightarrow> False | Some s \<Rightarrow> s \<in> set ss)"

definition valid_entries :: "row list \<Rightarrow> row list" where
  "valid_entries df = filter (\<lambda>r. \<not> isin (qualification_status r) invalid_statuses) df"

record summary =
  total_entries :: nat
  unique_phones :: nat
  duplicate_entries :: nat
  status_breakdown :: "(status \<times> nat \<times> real) list"
  valid_count :: nat
  valid_percentage :: real
  valid_breakdown :: "(status \<times> nat \<times> real) list"
  qualified_count :: nat
  qualified_percentage :: real
  action_required_count :: nat
  action_percentage :: real

definition generate_summary :: "row list \<Rightarrow> py_error + summary" where
  "generate_summary df =
     (let ntotal = length df;
          valid = valid_entries df;
          nvalid = length valid;
          nqual = length (filter (\<lambda>r. isin (qualification_status r) qualified_statuses) df);
          nact = length (filter (\<lambda>r. isin (qualification_status r) action_required_statuses) df)
      in
      case breakdown (value_counts (dropna (map qualification_status df))) ntotal of
        Inl e \<Rightarrow> Inl e
      | Inr sb \<Rightarrow>
          (case percent_of nvalid ntotal of
             Inl e \<Rightarrow> Inl e
           | Inr vp \<Rightarrow>
               (case (if nvalid > 0
                      then breakdown (value_counts (dropna (map qualification_status valid))) nvalid
                      else Inr []) of
                  Inl e \<Rightarrow> Inl e
                | Inr vb \<Rightarrow>
                    (case (if nvalid > 0 then percent_of nqual nvalid else Inr 0) of
                       Inl e \<Rightarrow> Inl e
                     | Inr qp \<Rightarrow>
                         (case (if nvalid > 0 then percent_of nact nvalid else Inr 0) of
                            Inl e \<Rightarrow> Inl e
                          | Inr ap \<Rightarrow>
                              Inr \<lparr>total_entries = ntotal,
                                   unique_phones = length (remdups (dropna (map Phone_Number df))),
                                   duplicate_entries = length (filter duplicate_entry df),
                                   status_breakdown = sb,
                                   valid_count = nvalid,
                                   valid_percentage = vp,
                                   valid_breakdown = vb,
                                   qualified_count = nqual,
                                   qualified_percentage = qp,
                                   action_required_count = nact,
                                   action_percentage = ap\<rparr>)))))"

definition main :: "web \<Rightarrow> registration list \<Rightarrow> py_error + (row list \<times> summary)" where
  "main w ds =
     (case process_all w (prepare ds) [] of
        Inl e \<Rightarrow> Inl e
      | Inr (df, reqs) \<Rightarrow>
          (case generate_summary df of
             Inl e \<Rightarrow> Inl e
           | Inr s \<Rightarrow> Inr (df, s)))"

section \<open>Sample inputs\<close>

definition sample_row :: row where
  "sample_row =
     \<lparr>Name = Some ''A'', Email_Address = Some ''a@x.org'',
      Skills_Boost_Email = Some ''b@y.org'', Phone_Number = Some ''111'',
      Terms = Some (Some ''Yes, I accept the terms''),
      Skills_Boost_Public_Profile_URL = Some ''https://profile/1'',
      is_duplicate = False, duplicate_group = Some 0, duplicate_position = Some 1,
      email_matches = False, email_has_gdg_domain = False,
      skillsboost_has_gdg_domain = False,
      profile_creation_year = Some 2025, profile_badge_count = Some 0,
      profile_league = None, profile_points = None, profile_status = Some ''success'',
      qualification_status = None, qualification_reason = None\<rparr>"

definition reg_a :: registration where
  "reg_a = \<lparr>Name_in = Some ''A'', Email_Address_in = Some ''a@x.org'',
      Skills_Boost_Email_in = Some ''a@x.org'', Phone_Number_in = Some ''9'',
      Terms_in = Some (Some ''Yes, I accept the terms''), Profile_URL_in = Some ''https://profile/a''\<rparr>"

definition reg_b :: registration where
  "reg_b = \<lparr>Name_in = Some ''B'', Email_Address_in = Some ''b@x.org'',
      Skills_Boost_Email_in = Some ''b@y.org'', Phone_Number_in = Some ''10'',
      Terms_in = Some (Some ''Yes, I accept the terms''), Profile_URL_in = Some ''https://profile/b''\<rparr>"

definition reg_c :: registration where
  "reg_c = \<lparr>Name_in = Some ''C'', Email_Address_in = Some ''c.gdgocbcet@gmail.com'',
      Skills_Boost_Email_in = Some ''c.gdgocbcet@gmail.com'', Phone_Number_in = Some ''9'',
      Terms_in = Some (Some ''Yes, I accept the terms''), Profile_URL_in = Some ''https://profile/c''\<rparr>"

definition reg_blank1 :: registration where
  "reg_blank1 = \<lparr>Name_in = None, Email_Address_in = Some ''d@x.org'',
      Skills_Boost_Email_in = Some ''d@x.org'', Phone_Number_in = None,
      Terms_in = Some (Some ''Yes, I accept the terms''), Profile_URL_in = Some ''https://profile/d''\<rparr>"

definition reg_blank2 :: registration where
  "reg_blank2 = \<lparr>Name_in = None, Email_Address_in = Some ''e@x.org'',
      Skills_Boost_Email_in = Some ''e@x.org'', Phone_Number_in = None,
      Terms_in = Some (Some ''Yes, I accept the terms''), Profile_URL_in = Some ''https://profile/e''\<rparr>"

section \<open>Properties of the rule engine\<close>

text \<open>
  C10. A row whose name, two emails and phone number are present and whose consent
  column exists with a missing (NaN) value is classified \<open>TERMS_DECLINED\<close>: a missing
  consent value counts as not accepted, not as an incomplete registration.
\<close>

theorem missing_consent_is_terms_declined:
  assumes "Name r \<noteq> None" and "Email_Address r \<noteq> None"
    and "Skills_Boost_Email r \<noteq> None" and "Phone_Number r \<noteq> None"
    and "Terms r = Some None"
  shows "determine_qualification r = (TERMS_DECLINED, ''Terms and conditions not accepted'')"
  using assms
  by (simp add: determine_qualification_def incomplete_registration_def terms_declined_def isna_def)

theorem missing_consent_is_terms_declined_witness:
  "Name (sample_row\<lparr>Terms := Some None\<rparr>) \<noteq> None \<and>
   Email_Address (sample_row\<lparr>Terms := Some None\<rparr>) \<noteq> None \<and>
   Skills_Boost_Email (sample_row\<lparr>Terms := Some None\<rparr>) \<noteq> None \<and>
   Phone_Number (sample_row\<lparr>Terms := Some None\<rparr>) \<noteq> None \<and>
   Terms (sample_row\<lparr>Terms := Some None\<rparr>) = Some None \<and>
   determine_qualification (sample_row\<lparr>Terms := Some None\<rparr>) =
     (TERMS_DECLINED, ''Terms and conditions not accepted'')"
  using missing_consent_is_terms_declined [of "sample_row\<lparr>Terms := Some None\<rparr>"]
  by (simp add: sample_row_def)

text \<open>
  C1, as stated, fails: a 2025 account with an empty profile (no badges, no points, no
  league) whose two emails differ and are both outside the reserved domain passes every
  earlier rule and is classified \<open>REVIEW_NEEDED\<close>.
\<close>

theorem review_needed_empty_profile_counterexample:
  "fst (determine_qualification sample_row) = REVIEW_NEEDED \<and>
   profile_creation_year sample_row = Some 2025 \<and>
   no_badges sample_row \<and> no_points sample_row \<and> no_league sample_row"
  by (simp add: sample_row_def determine_qualification_def evidence_rules_def
      incomplete_registration_def terms_declined_def no_profile_url_def duplicate_entry_def
      hard_qualified_def qualified_tier2_def flagged_diff_account_def disqualified_def
      caution_pre2025_def pre2025_def truthy_def no_badges_def no_points_def no_league_def
      isna_def strip_def is_space_def)

text \<open>
  C1, amended. A row that no earlier rule matches is classified \<open>REVIEW_NEEDED\<close> exactly
  when its creation year is 2025. The reason is
  \<open>2025 account with B badges, P points\<close>, with the stored badge and point counts and
  \<open>0\<close> for an absent one. The profile has no positive badge count; when it is empty,
  the declared email is neither in the reserved domain nor equal to the program email.
\<close>

theorem review_needed_default_rule:
  assumes "\<not> incomplete_registration r" and "\<not> terms_declined r" and "\<not> no_profile_url r"
    and "\<not> duplicate_entry r" and "\<not> hard_qualified r" and "\<not> qualified_tier2 r"
    and "\<not> flagged_diff_account r" and "\<not> disqualified r" and "\<not> caution_pre2025 r"
  shows "(fst (determine_qualification r) = REVIEW_NEEDED) = (profile_creation_year r = Some 2025) \<and>
    (profile_creation_year r = Some 2025 \<longrightarrow>
       snd (determine_qualification r) =
         ''2025 account with '' @ str_int (or_zero (profile_badge_count r)) @ '' badges, '' @
         str_int (or_zero (profile_points r)) @ '' points'' \<and>
       (\<forall>b. profile_badge_count r = Some b \<longrightarrow> b \<le> 0) \<and>
       (no_badges r \<and> no_points r \<and> no_league r \<longrightarrow>
          \<not> email_has_gdg_domain r \<and> \<not> email_matches r))"
proof -
  have dq: "determine_qualification r =
      (if profile_creation_year r = Some 2025 then
         (REVIEW_NEEDED,
          ''2025 account with '' @ str_int (or_zero (profile_badge_count r)) @ '' badges, '' @
          str_int (or_zero (profile_points r)) @ '' points'')
       else if pre2025 r then
         (REVIEW_PRE2025,
          ''Pre-2025 account ('' @ str_int (the (profile_creation_year r)) @ '') needs review'')
       else (UNKNOWN, ''Could not determine profile details''))"
    using assms by (simp add: determine_qualification_def evidence_rules_def)
  have badges: "\<forall>b. profile_badge_count r = Some b \<longrightarrow> b \<le> 0"
    using \<open>\<not> disqualified r\<close> by (auto simp: disqualified_def truthy_def)
  have emails: "profile_creation_year r = Some 2025 \<Longrightarrow> no_badges r \<and> no_points r \<and> no_league r
      \<Longrightarrow> \<not> email_has_gdg_domain r \<and> \<not> email_matches r"
    using \<open>\<not> hard_qualified r\<close> \<open>\<not> qualified_tier2 r\<close>
    by (auto simp: hard_qualified_def qualified_tier2_def)
  show ?thesis
    using badges emails by (simp add: dq)
qed

theorem review_needed_default_rule_witness:
  "\<not> incomplete_registration sample_row \<and> \<not> terms_declined sample_row \<and>
   \<not> no_profile_url sample_row \<and> \<not> duplicate_entry sample_row \<and>
   \<not> hard_qualified sample_row \<and> \<not> qualified_tier2 sample_row \<and>
   \<not> flagged_diff_account sample_row \<and> \<not> disqualified sample_row \<and>
   \<not> caution_pre2025 sample_row \<and>
   profile_creation_year sample_row = Some 2025 \<and>
   fst (determine_qualification sample_row) = REVIEW_NEEDED \<and>
   snd (determine_qualification sample_row) = ''2025 account with 0 badges, 0 points''"
proof -
  have s0: "str_int 0 = ''0''"
    by code_simp
  have h: "\<not> incomplete_registration sample_row" "\<not> terms_declined sample_row"
    "\<not> no_profile_url sample_row" "\<not> duplicate_entry sample_row"
    "\<not> hard_qualified sample_row" "\<not> qualified_tier2 sample_row"
    "\<not> flagged_diff_account sample_row" "\<not> disqualified sample_row"
    "\<not> caution_pre2025 sample_row"
    by (simp_all add: sample_row_def incomplete_registration_def terms_declined_def
        no_profile_url_def duplicate_entry_def hard_qualified_def qualified_tier2_def
        flagged_diff_account_def disqualified_def caution_pre2025_def pre2025_def truthy_def
        isna_def strip_def is_space_def)
  have y: "profile_creation_year sample_row = Some 2025"
    and c: "or_zero (profile_badge_count sample_row) = 0" "or_zero (profile_points sample_row) = 0"
    by (simp_all add: sample_row_def or_zero_def)
  show ?thesis
    using review_needed_default_rule [OF h] h y c by (simp add: s0)
qed

section \<open>Properties of the grouping step\<close>

lemma mark_duplicates_eq: "mark_duplicates df = map (marked_row df) [0..<length df]"
  unfolding mark_duplicates_def Let_def
  by (rule map_cong)
    (auto simp: marked_row_def duplicated_keep_False_def ngroup_def cumcount_def group_rank_def
      split: option.splits)

lemma length_mark_duplicates [simp]: "length (mark_duplicates df) = length df"
  by (simp add: mark_duplicates_eq)

lemma registration_of_marked_row [simp]: "registration_of (marked_row df i) = registration_of (df ! i)"
  by (simp add: marked_row_def registration_of_def)

lemma Phone_marked_row [simp]: "Phone_Number (marked_row df i) = Phone_Number (df ! i)"
  by (simp add: marked_row_def)

lemma registration_of_mark_duplicates: "map registration_of (mark_duplicates df) = map registration_of df"
  by (rule nth_equalityI) (simp_all add: mark_duplicates_eq)

lemma registration_of_new_row [simp]: "registration_of (new_row d) = d"
  by (simp add: registration_of_def new_row_def)

lemma cumcount_run:
  "map (\<lambda>i. count_list (take i ks) x) (filter (\<lambda>i. ks ! i = x) [0..<length ks]) = [0..<count_list ks x]"
proof (induction ks rule: rev_induct)
  case Nil
  show ?case by simp
next
  case (snoc k ks)
  have f: "filter (\<lambda>i. (ks @ [k]) ! i = x) [0..<length ks] = filter (\<lambda>i. ks ! i = x) [0..<length ks]"
    by (rule filter_cong) (auto simp: nth_append)
  have m: "map (\<lambda>i. count_list (take i (ks @ [k])) x) (filter (\<lambda>i. ks ! i = x) [0..<length ks])
      = map (\<lambda>i. count_list (take i ks) x) (filter (\<lambda>i. ks ! i = x) [0..<length ks])"
    by (rule map_cong) auto
  have u: "[0..<length (ks @ [k])] = [0..<length ks] @ [length ks]"
    by simp
  have "map (\<lambda>i. count_list (take i (ks @ [k])) x) (filter (\<lambda>i. (ks @ [k]) ! i = x) [0..<length (ks @ [k])])
      = [0..<count_list ks x] @ (if k = x then [count_list ks x] else [])"
    by (simp only: u filter_append map_append f m snoc.IH) simp
  then show ?case
    by simp
qed

lemma members_marked:
  "members p (mark_duplicates df) =
     map (marked_row df) (filter (\<lambda>i. map Phone_Number df ! i = Some p) [0..<length df])"
  unfolding members_def mark_duplicates_eq filter_map
  by (rule arg_cong [where f = "map (marked_row df)"], rule filter_cong) auto

lemma length_members_marked:
  "length (members p (mark_duplicates df)) = count_list (map Phone_Number df) (Some p)"
proof -
  have "length (members p (mark_duplicates df)) =
      length (map (\<lambda>i. count_list (take i (map Phone_Number df)) (Some p))
        (filter (\<lambda>i. map Phone_Number df ! i = Some p) [0..<length (map Phone_Number df)]))"
    by (simp add: members_marked)
  then show ?thesis by (simp only: cumcount_run length_upt diff_zero)
qed

lemma positions_members_marked:
  "map duplicate_position (members p (mark_duplicates df)) =
     map Some [1..<Suc (length (members p (mark_duplicates df)))]"
proof -
  let ?ks = "map Phone_Number df"
  let ?idx = "filter (\<lambda>i. ?ks ! i = Some p) [0..<length ?ks]"
  have "map duplicate_position (members p (mark_duplicates df)) =
      map (\<lambda>i. Some (Suc (count_list (take i ?ks) (Some p)))) ?idx"
    unfolding members_marked by (auto simp: marked_row_def)
  also have "\<dots> = map (\<lambda>c. Some (Suc c)) (map (\<lambda>i. count_list (take i ?ks) (Some p)) ?idx)"
    by simp
  also have "\<dots> = map Some (map Suc [0..<count_list ?ks (Some p)])"
    by (simp only: cumcount_run) simp
  finally show ?thesis
    by (simp only: map_Suc_upt length_members_marked) simp
qed


lemma length_filter_mono:
  "\<forall>x\<in>set xs. P x \<longrightarrow> Q x \<Longrightarrow> length (filter P xs) \<le> length (filter Q xs)"
  by (induction xs) auto

lemma length_filter_strict:
  "\<forall>x\<in>set xs. P x \<longrightarrow> Q x \<Longrightarrow> \<exists>x\<in>set xs. Q x \<and> \<not> P x \<Longrightarrow>
     length (filter P xs) < length (filter Q xs)"
proof (induction xs)
  case Nil
  then show ?case by simp
next
  case (Cons a xs)
  have le: "length (filter P xs) \<le> length (filter Q xs)"
    using Cons.prems(1) by (intro length_filter_mono) simp
  show ?case
  proof (cases "Q a \<and> \<not> P a")
    case True
    then show ?thesis using le by simp
  next
    case False
    then have "\<exists>x\<in>set xs. Q x \<and> \<not> P x" using Cons.prems(2) by auto
    then have "length (filter P xs) < length (filter Q xs)"
      using Cons.IH Cons.prems(1) by simp
    then show ?thesis using Cons.prems(1) by auto
  qed
qed

lemma set_group_keys: "set (group_keys ks) = {v. Some v \<in> set ks}"
  by (force simp: group_keys_def dropna_def isna_def)

lemma group_rank_less:
  fixes u v :: "'k::linorder"
  assumes "u < v" and "Some u \<in> set ks"
  shows "group_rank ks u < group_rank ks v"
  unfolding group_rank_def
proof (rule length_filter_strict)
  show "\<forall>x\<in>set (group_keys ks). x < u \<longrightarrow> x < v"
    using assms(1) by auto
  show "\<exists>x\<in>set (group_keys ks). x < v \<and> \<not> x < u"
    using assms by (auto simp: set_group_keys)
qed

lemma group_rank_inj:
  fixes u v :: "'k::linorder"
  assumes "Some u \<in> set ks" and "Some v \<in> set ks" and "group_rank ks u = group_rank ks v"
  shows "u = v"
proof (rule ccontr)
  assume "u \<noteq> v"
  then consider "u < v" | "v < u" by (meson neqE)
  then show False
    using group_rank_less [of u v ks] group_rank_less [of v u ks] assms by cases auto
qed

lemma set_mark_duplicates:
  "r \<in> set (mark_duplicates df) \<longleftrightarrow> (\<exists>i<length df. r = marked_row df i)"
  by (auto simp: mark_duplicates_eq)

lemma group_identifies_phone:
  assumes "r \<in> set (mark_duplicates df)" and "Some p \<in> set (map Phone_Number df)"
  shows "fst (sort_columns r) = (0, group_rank (map Phone_Number df) p) \<longleftrightarrow> Phone_Number r = Some p"
proof -
  obtain i where i: "i < length df" "r = marked_row df i"
    using assms(1) by (auto simp: set_mark_duplicates)
  show ?thesis
  proof (cases "Phone_Number (df ! i)")
    case None
    then show ?thesis using i by (simp add: sort_columns_def na_last_def marked_row_def)
  next
    case (Some q)
    then have "Some q \<in> set (map Phone_Number df)"
      using i(1) by (metis length_map nth_map nth_mem)
    then show ?thesis
      using i Some assms(2) group_rank_inj [of q "map Phone_Number df" p]
      by (auto simp: sort_columns_def na_last_def marked_row_def)
  qed
qed

lemma sorted_split3:
  fixes f :: "'a \<Rightarrow> 'b::linorder"
  shows "sorted (map f xs) \<Longrightarrow>
    xs = filter (\<lambda>x. f x < k) xs @ filter (\<lambda>x. f x = k) xs @ filter (\<lambda>x. k < f x) xs"
proof (induction xs)
  case Nil
  then show ?case by simp
next
  case (Cons a xs)
  then have ge: "\<forall>y\<in>set xs. f a \<le> f y" and IH: "xs = filter (\<lambda>x. f x < k) xs @ filter (\<lambda>x. f x = k) xs @ filter (\<lambda>x. k < f x) xs"
    by auto
  consider "f a < k" | "f a = k" | "k < f a" by (meson not_less_iff_gr_or_eq)
  then show ?case
  proof cases
    case 1
    then show ?thesis using IH by auto
  next
    case 2
    then have "filter (\<lambda>x. f x < k) xs = []" using ge by (auto simp: filter_empty_conv)
    then show ?thesis using 2 IH by auto
  next
    case 3
    then have "filter (\<lambda>x. f x < k) xs = []" "filter (\<lambda>x. f x = k) xs = []"
      using ge by (auto simp: filter_empty_conv)
    then show ?thesis using 3 IH by auto
  qed
qed

lemma fst_mono_lex:
  fixes x y :: "'a::linorder \<times> 'b::linorder"
  shows "x \<le> y \<Longrightarrow> fst x \<le> fst y"
  by (auto simp: less_eq_prod_def)

lemma sorted_fst_sort_columns:
  "sorted (map sort_columns xs) \<Longrightarrow> sorted (map (\<lambda>r. fst (sort_columns r)) xs)"
  unfolding sorted_map
  by (erule sorted_wrt_mono_rel [rotated]) (rule fst_mono_lex)

lemma sorted_pair_upt: "sorted (map (Pair (0::nat)) [m..<n])"
  unfolding sorted_map
  by (rule sorted_wrt_mono_rel [OF _ sorted_wrt_upt]) (simp add: less_eq_prod_def)

lemma sorted_members_marked: "sorted (map sort_columns (members p (mark_duplicates df)))"
proof -
  let ?xs = "members p (mark_duplicates df)"
  have g: "\<forall>r\<in>set ?xs. duplicate_group r = Some (group_rank (map Phone_Number df) p)"
    by (auto simp: members_def set_mark_duplicates marked_row_def)
  have "map (\<lambda>r. na_last (duplicate_position r)) ?xs = map na_last (map duplicate_position ?xs)"
    by simp
  also have "\<dots> = map (\<lambda>c. (0, c)) [1..<Suc (length ?xs)]"
    by (simp only: positions_members_marked) (simp add: na_last_def)
  finally have e: "map (\<lambda>r. na_last (duplicate_position r)) ?xs = map (Pair 0) [1..<Suc (length ?xs)]" .
  have "sorted (map (\<lambda>r. na_last (duplicate_position r)) ?xs)"
    unfolding e by (rule sorted_pair_upt)
  then show ?thesis
    using g unfolding sorted_map sort_columns_def
    by (elim sorted_wrt_mono_rel [rotated]) (auto simp: less_eq_prod_def)
qed

lemma members_sort_values: "members p (sort_values (mark_duplicates df)) = members p (mark_duplicates df)"
  unfolding members_def sort_values_def filter_sort
  using sorted_members_marked [of p df] unfolding members_def
  by (rule sort_key_id_if_sorted)


lemma phone_of_marked: "r \<in> set (mark_duplicates df) \<Longrightarrow> Phone_Number r \<in> set (map Phone_Number df)"
  by (auto simp: set_mark_duplicates)

lemma count_one_upt: "length (filter (\<lambda>c. c = Some (Suc 0)) (map Some [Suc 0..<Suc n])) = (if n = 0 then 0 else 1)"
  by (induction n) auto

lemma registration_of_grouper_members:
  "map registration_of (members p (mark_duplicates (map new_row ds))) =
     filter (\<lambda>d. Phone_Number_in d = Some p) ds"
proof -
  have "map registration_of (members p (mark_duplicates (map new_row ds))) =
      filter (\<lambda>d. Phone_Number_in d = Some p) (map registration_of (mark_duplicates (map new_row ds)))"
    by (simp add: members_def filter_map comp_def registration_of_def)
  also have "map registration_of (mark_duplicates (map new_row ds)) = ds"
    by (simp add: registration_of_mark_duplicates comp_def)
  finally show ?thesis .
qed

text \<open>
  C9. The grouping step drops no record: the sorted table holds the lines of the sheet,
  each once. For every phone number \<open>p\<close>, the rows with that number appear in the sorted
  table next to each other and in the order of the file, and their \<open>duplicate_position\<close>
  values are \<open>1, 2, 3, ...\<close> in that order, so exactly one of them, the first seen, has
  position \<open>1\<close>.
\<close>

theorem grouper_positions:
  "mset (map registration_of (grouper ds)) = mset ds \<and>
   map registration_of (members p (grouper ds)) = filter (\<lambda>d. Phone_Number_in d = Some p) ds \<and>
   map duplicate_position (members p (grouper ds)) = map Some [1..<Suc (length (members p (grouper ds)))] \<and>
   length (filter (\<lambda>r. duplicate_position r = Some 1) (members p (grouper ds))) =
     (if members p (grouper ds) = [] then 0 else 1) \<and>
   (\<exists>pre post. grouper ds = pre @ members p (grouper ds) @ post \<and>
      (\<forall>r\<in>set pre \<union> set post. Phone_Number r \<noteq> Some p))"
proof -
  let ?df = "map new_row ds"
  let ?marked = "mark_duplicates ?df"
  let ?G = "members p (grouper ds)"
  have G: "?G = members p ?marked"
    by (simp add: grouper_def members_sort_values)
  have c1: "mset (map registration_of (grouper ds)) = mset ds"
  proof -
    have "mset (map registration_of (grouper ds)) = mset (map registration_of ?marked)"
      by (simp add: grouper_def sort_values_def)
    then show ?thesis by (simp add: registration_of_mark_duplicates comp_def)
  qed
  have c2: "map registration_of ?G = filter (\<lambda>d. Phone_Number_in d = Some p) ds"
    unfolding G by (rule registration_of_grouper_members)
  have c3: "map duplicate_position ?G = map Some [1..<Suc (length ?G)]"
    unfolding G by (rule positions_members_marked)
  have "length (filter (\<lambda>r. duplicate_position r = Some 1) ?G) =
      length (filter (\<lambda>c. c = Some (Suc 0)) (map duplicate_position ?G))"
    by (simp add: filter_map comp_def)
  also have "\<dots> = (if length ?G = 0 then 0 else 1)"
    by (simp only: c3 One_nat_def count_one_upt)
  finally have c4: "length (filter (\<lambda>r. duplicate_position r = Some 1) ?G) = (if ?G = [] then 0 else 1)"
    by simp
  have c5: "\<exists>pre post. grouper ds = pre @ ?G @ post \<and> (\<forall>r\<in>set pre \<union> set post. Phone_Number r \<noteq> Some p)"
  proof (cases "Some p \<in> set (map Phone_Number ?df)")
    case False
    have "\<forall>r\<in>set (grouper ds). Phone_Number r \<noteq> Some p"
    proof (intro ballI notI)
      fix r
      assume r: "r \<in> set (grouper ds)" and ph: "Phone_Number r = Some p"
      from r have "r \<in> set (mark_duplicates ?df)"
        by (simp add: grouper_def sort_values_def)
      from phone_of_marked [OF this] ph False show False
        by simp
    qed
    moreover from this have "?G = []"
      by (auto simp: members_def filter_empty_conv)
    ultimately have "grouper ds = grouper ds @ ?G @ [] \<and> (\<forall>r\<in>set (grouper ds) \<union> set []. Phone_Number r \<noteq> Some p)"
      by simp
    then show ?thesis by blast
  next
    case True
    let ?k = "(0::nat, group_rank (map Phone_Number ?df) p)"
    let ?f = "\<lambda>r. fst (sort_columns r)"
    have srt: "sorted (map ?f (grouper ds))"
      by (simp add: grouper_def sort_values_def sorted_fst_sort_columns)
    have key: "\<And>r. r \<in> set (grouper ds) \<Longrightarrow> (?f r = ?k) = (Phone_Number r = Some p)"
      using group_identifies_phone [OF _ True] by (simp add: grouper_def sort_values_def)
    have mid: "filter (\<lambda>r. ?f r = ?k) (grouper ds) = ?G"
      unfolding members_def by (rule filter_cong [OF refl]) (rule key)
    have "grouper ds = filter (\<lambda>r. ?f r < ?k) (grouper ds) @ ?G @ filter (\<lambda>r. ?k < ?f r) (grouper ds)"
      using sorted_split3 [OF srt, of ?k] by (simp only: mid)
    moreover have "\<forall>r\<in>set (filter (\<lambda>r. ?f r < ?k) (grouper ds)) \<union> set (filter (\<lambda>r. ?k < ?f r) (grouper ds)).
        Phone_Number r \<noteq> Some p"
    proof (intro ballI notI)
      fix r
      assume r: "r \<in> set (filter (\<lambda>r. ?f r < ?k) (grouper ds)) \<union> set (filter (\<lambda>r. ?k < ?f r) (grouper ds))"
        and ph: "Phone_Number r = Some p"
      from r have "r \<in> set (grouper ds)" by auto
      with key ph have "?f r = ?k" by blast
      with r show False by auto
    qed
    ultimately show ?thesis by blast
  qed
  show ?thesis
    using c1 c2 c3 c4 c5 by blast
qed

theorem grouper_positions_witness:
  "members ''9'' (grouper [reg_a, reg_b, reg_c]) \<noteq> [] \<and>
   length (members ''9'' (grouper [reg_a, reg_b, reg_c])) = 2 \<and>
   map duplicate_position (members ''9'' (grouper [reg_a, reg_b, reg_c])) = [Some 1, Some 2] \<and>
   map registration_of (members ''9'' (grouper [reg_a, reg_b, reg_c])) = [reg_a, reg_c] \<and>
   length (filter (\<lambda>r. duplicate_position r = Some 1) (members ''9'' (grouper [reg_a, reg_b, reg_c]))) = 1"
proof -
  have n: "length (members ''9'' (grouper [reg_a, reg_b, reg_c])) = 2"
    by code_simp
  then have ne: "members ''9'' (grouper [reg_a, reg_b, reg_c]) \<noteq> []"
    by auto
  have f: "filter (\<lambda>d. Phone_Number_in d = Some ''9'') [reg_a, reg_b, reg_c] = [reg_a, reg_c]"
    by (simp add: reg_a_def reg_b_def reg_c_def)
  have u: "[1..<Suc 2] = [1, 2]"
    by (simp add: upt_rec)
  show ?thesis
    using grouper_positions [of "[reg_a, reg_b, reg_c]" "''9''"] ne
    by (simp only: n f u) simp
qed

section \<open>Duplicates and the rule engine\<close>

lemma marked_row_dup:
  assumes "i < length df" and "duplicate_position (marked_row df i) = Some n" and "1 < n"
  shows "is_duplicate (marked_row df i)"
proof -
  let ?ks = "map Phone_Number df"
  obtain v where v: "Phone_Number (df ! i) = Some v"
    using assms(2) by (cases "Phone_Number (df ! i)") (auto simp: marked_row_def)
  then have c: "1 \<le> count_list (take i ?ks) (Some v)"
    using assms(2,3) by (auto simp: marked_row_def)
  have "?ks = take i ?ks @ ?ks ! i # drop (Suc i) ?ks"
    using assms(1) by (intro id_take_nth_drop) simp
  then have "count_list ?ks (Some v) =
      count_list (take i ?ks @ ?ks ! i # drop (Suc i) ?ks) (Some v)"
    by simp
  also have "\<dots> \<ge> count_list (take i ?ks) (Some v) + 1"
    using v assms(1) by (simp only: count_list_append) simp
  finally have "1 < count_list ?ks (Some v)"
    using c by linarith
  then show ?thesis
    using v by (simp add: marked_row_def)
qed

lemma set_grouper: "set (grouper ds) = set (mark_duplicates (map new_row ds))"
  by (simp add: grouper_def sort_values_def)

lemma set_prepare:
  "r \<in> set (prepare ds) \<longleftrightarrow>
     (\<exists>i<length ds. r = init_profile_columns (add_email_columns (marked_row (map new_row ds) i)))"
  unfolding prepare_def set_map set_grouper image_iff Bex_def set_mark_duplicates
  by auto

lemma prepared_dup:
  assumes "r \<in> set (prepare ds)" and "duplicate_position r = Some n" and "1 < n"
  shows "is_duplicate r"
proof -
  obtain i where i: "i < length ds"
    "r = init_profile_columns (add_email_columns (marked_row (map new_row ds) i))"
    using assms(1) by (auto simp: set_prepare)
  have "duplicate_position (marked_row (map new_row ds) i) = Some n"
    using assms(2) i(2) by (simp add: init_profile_columns_def add_email_columns_def)
  then have "is_duplicate (marked_row (map new_row ds) i)"
    using marked_row_dup [of i "map new_row ds" n] i(1) assms(3) by simp
  then show ?thesis
    using i(2) by (simp add: init_profile_columns_def add_email_columns_def)
qed

lemma evidence_rules_not_dup: "fst (evidence_rules r) \<noteq> DUPLICATE_ENTRY"
  by (simp add: evidence_rules_def)

text \<open>
  C4. In the table that the processing loop works on, a row with
  \<open>duplicate_position\<close> above 1 that rules 1 to 3 do not match is classified
  \<open>DUPLICATE_ENTRY\<close> whatever its evidence columns hold (such a row always has
  \<open>is_duplicate\<close> set, which the rule also tests). A row at position 1 is never
  classified \<open>DUPLICATE_ENTRY\<close>; past rules 1 to 3 its verdict is that of the
  evidence rules.
\<close>

theorem duplicate_position_decides:
  "(r \<in> set (prepare ds) \<and> duplicate_position r = Some n \<and> 1 < n \<and>
    \<not> incomplete_registration r \<and> \<not> terms_declined r \<and> \<not> no_profile_url r \<longrightarrow>
      (\<forall>y b l pts. fst (determine_qualification
          (r\<lparr>profile_creation_year := y, profile_badge_count := b, profile_league := l,
             profile_points := pts\<rparr>)) = DUPLICATE_ENTRY)) \<and>
   (duplicate_position r = Some 1 \<longrightarrow>
      fst (determine_qualification r) \<noteq> DUPLICATE_ENTRY \<and>
      (\<not> incomplete_registration r \<and> \<not> terms_declined r \<and> \<not> no_profile_url r \<longrightarrow>
         determine_qualification r = evidence_rules r))"
proof (intro conjI impI allI)
  fix y b l pts
  assume a: "r \<in> set (prepare ds) \<and> duplicate_position r = Some n \<and> 1 < n \<and>
    \<not> incomplete_registration r \<and> \<not> terms_declined r \<and> \<not> no_profile_url r"
  then have "is_duplicate r"
    using prepared_dup by blast
  then show "fst (determine_qualification
          (r\<lparr>profile_creation_year := y, profile_badge_count := b, profile_league := l,
             profile_points := pts\<rparr>)) = DUPLICATE_ENTRY"
    using a by (simp add: determine_qualification_def incomplete_registration_def
        terms_declined_def no_profile_url_def duplicate_entry_def)
next
  assume "duplicate_position r = Some 1"
  then show "fst (determine_qualification r) \<noteq> DUPLICATE_ENTRY"
    by (simp add: determine_qualification_def duplicate_entry_def evidence_rules_not_dup)
next
  assume "duplicate_position r = Some 1"
    and "\<not> incomplete_registration r \<and> \<not> terms_declined r \<and> \<not> no_profile_url r"
  then show "determine_qualification r = evidence_rules r"
    by (simp add: determine_qualification_def duplicate_entry_def)
qed

theorem duplicate_position_decides_witness:
  "prepare [reg_a, reg_b, reg_c] ! 2 \<in> set (prepare [reg_a, reg_b, reg_c]) \<and>
   duplicate_position (prepare [reg_a, reg_b, reg_c] ! 2) = Some 2 \<and>
   email_has_gdg_domain (prepare [reg_a, reg_b, reg_c] ! 2) \<and>
   fst (determine_qualification
     ((prepare [reg_a, reg_b, reg_c] ! 2)\<lparr>profile_creation_year := Some 2025,
        profile_badge_count := Some 0, profile_league := None, profile_points := None\<rparr>))
     = DUPLICATE_ENTRY \<and>
   duplicate_position (prepare [reg_a, reg_b, reg_c] ! 1) = Some 1 \<and>
   determine_qualification (prepare [reg_a, reg_b, reg_c] ! 1) =
     evidence_rules (prepare [reg_a, reg_b, reg_c] ! 1)"
proof -
  let ?df = "prepare [reg_a, reg_b, reg_c]"
  have len: "length ?df = 3"
    by (simp add: prepare_def grouper_def sort_values_def)
  have m: "?df ! 2 \<in> set ?df"
    by (rule nth_mem) (simp add: len)
  have p2: "duplicate_position (?df ! 2) = Some 2" and g: "email_has_gdg_domain (?df ! 2)"
    and r2: "\<not> incomplete_registration (?df ! 2)" "\<not> terms_declined (?df ! 2)"
      "\<not> no_profile_url (?df ! 2)"
    by code_simp+
  have p1: "duplicate_position (?df ! 1) = Some 1"
    and r1: "\<not> incomplete_registration (?df ! 1)" "\<not> terms_declined (?df ! 1)"
      "\<not> no_profile_url (?df ! 1)"
    by code_simp+
  show ?thesis
    using duplicate_position_decides [of "?df ! 2" "[reg_a, reg_b, reg_c]" 2]
      duplicate_position_decides [of "?df ! 1" "[reg_a, reg_b, reg_c]" 1] m p2 g r2 p1 r1
    by simp
qed

section \<open>Rows without a phone number\<close>

text \<open>
  C2, as stated, fails: two different sheet lines with a missing phone number are both
  flagged \<open>is_duplicate\<close>, and neither gets a group of its own.
\<close>

theorem blank_phones_flagged_counterexample:
  "map Phone_Number (prepare [reg_blank1, reg_blank2]) = [None, None] \<and>
   map is_duplicate (prepare [reg_blank1, reg_blank2]) = [True, True] \<and>
   map duplicate_group (prepare [reg_blank1, reg_blank2]) = [None, None] \<and> reg_blank1 \<noteq> reg_blank2"
  by code_simp


text \<open>
  C2, amended. A row with a missing phone number has no group number and no position;
  it is flagged \<open>is_duplicate\<close> exactly when the sheet has more than one line with a
  missing phone number; and it is classified \<open>INCOMPLETE_REGISTRATION\<close>, whether or
  not its name is missing too.
\<close>

theorem missing_phone_rows:
  assumes "r \<in> set (prepare ds)" and "Phone_Number r = None"
  shows "is_duplicate r = (1 < count_list (map Phone_Number_in ds) None) \<and>
    duplicate_group r = None \<and> duplicate_position r = None \<and>
    determine_qualification r =
      (INCOMPLETE_REGISTRATION, ''Missing required fields (Name, Email, or Phone)'')"
proof -
  obtain i where i: "i < length ds"
    "r = init_profile_columns (add_email_columns (marked_row (map new_row ds) i))"
    using assms(1) by (auto simp: set_prepare)
  have ph: "Phone_Number (new_row (ds ! i)) = None"
    using assms(2) i by (simp add: init_profile_columns_def add_email_columns_def marked_row_def)
  have ks: "map Phone_Number (map new_row ds) = map Phone_Number_in ds"
    by (simp add: new_row_def)
  have "is_duplicate r = (1 < count_list (map Phone_Number (map new_row ds)) None)"
    using i ph by (simp add: init_profile_columns_def add_email_columns_def marked_row_def)
  moreover have "duplicate_group r = None" "duplicate_position r = None"
    using i ph by (simp_all add: init_profile_columns_def add_email_columns_def marked_row_def)
  moreover have "determine_qualification r =
      (INCOMPLETE_REGISTRATION, ''Missing required fields (Name, Email, or Phone)'')"
    using assms(2) by (simp add: determine_qualification_def incomplete_registration_def isna_def)
  ultimately show ?thesis
    by (simp only: ks)
qed

theorem missing_phone_rows_witness:
  "prepare [reg_blank1, reg_blank2] ! 0 \<in> set (prepare [reg_blank1, reg_blank2]) \<and>
   Phone_Number (prepare [reg_blank1, reg_blank2] ! 0) = None \<and>
   is_duplicate (prepare [reg_blank1, reg_blank2] ! 0) \<and>
   duplicate_position (prepare [reg_blank1, reg_blank2] ! 0) = None \<and>
   fst (determine_qualification (prepare [reg_blank1, reg_blank2] ! 0)) = INCOMPLETE_REGISTRATION"
proof -
  let ?df = "prepare [reg_blank1, reg_blank2]"
  have len: "length ?df = 2"
    by (simp add: prepare_def grouper_def sort_values_def)
  have m: "?df ! 0 \<in> set ?df"
    by (rule nth_mem) (simp add: len)
  have ph: "Phone_Number (?df ! 0) = None"
    by code_simp
  have c: "1 < count_list (map Phone_Number_in [reg_blank1, reg_blank2]) None"
    by (simp add: reg_blank1_def reg_blank2_def)
  show ?thesis
    using missing_phone_rows [OF m ph] m ph c by (simp only: fst_conv)
qed

section \<open>The reserved-domain test\<close>

lemma match_here_literal: "match_here (re_compile p) (p @ post)"
  by (induction p) (simp_all add: re_compile_def)

lemma match_here_imp_search: "match_here ps s \<Longrightarrow> re_search ps s"
  by (cases s) simp_all

lemma re_search_skip: "re_search ps s \<Longrightarrow> re_search ps (pre @ s)"
  by (induction pre) simp_all

lemma str_contains_substring: "str_contains p (Some (pre @ p @ post))"
  by (simp add: str_contains_def re_search_skip match_here_imp_search match_here_literal)

text \<open>
  C5, as stated, fails: an email that has the reserved string in its middle, not at its
  end, satisfies the test, and with an empty 2025 profile the row is \<open>HARD_QUALIFIED\<close>.
\<close>

theorem reserved_domain_interior_counterexample:
  "email_has_gdg_domain
     (add_email_columns (sample_row\<lparr>Email_Address := Some ''c.gdgocbcet@gmail.com.evil.org''\<rparr>)) \<and>
   \<not> suffix gdg_pattern ''c.gdgocbcet@gmail.com.evil.org'' \<and>
   fst (determine_qualification
     (add_email_columns (sample_row\<lparr>Email_Address := Some ''c.gdgocbcet@gmail.com.evil.org''\<rparr>)))
     = HARD_QUALIFIED"
  by code_simp

text \<open>
  C5, amended. The reserved-domain test of an email holds whenever the string
  \<open>.gdgocbcet@gmail.com\<close> occurs in the email, at its end or anywhere before it, and
  fails for a missing email.
\<close>

theorem reserved_domain_is_substring_test:
  "(Email_Address r = Some (pre @ gdg_pattern @ post) \<longrightarrow> email_has_gdg_domain (add_email_columns r)) \<and>
   (Skills_Boost_Email r = Some (pre @ gdg_pattern @ post) \<longrightarrow>
      skillsboost_has_gdg_domain (add_email_columns r)) \<and>
   (Email_Address r = None \<longrightarrow> \<not> email_has_gdg_domain (add_email_columns r)) \<and>
   (Skills_Boost_Email r = None \<longrightarrow> \<not> skillsboost_has_gdg_domain (add_email_columns r))"
  by (simp add: add_email_columns_def str_contains_substring) (simp add: str_contains_def)

theorem reserved_domain_is_substring_test_witness:
  "Email_Address (sample_row\<lparr>Email_Address := Some (''c'' @ gdg_pattern @ ''.evil.org'')\<rparr>)
     = Some (''c'' @ gdg_pattern @ ''.evil.org'') \<and>
   email_has_gdg_domain
     (add_email_columns (sample_row\<lparr>Email_Address := Some (''c'' @ gdg_pattern @ ''.evil.org'')\<rparr>)) \<and>
   Skills_Boost_Email (sample_row\<lparr>Skills_Boost_Email := Some (''c'' @ gdg_pattern @ [])\<rparr>)
     = Some (''c'' @ gdg_pattern @ []) \<and>
   skillsboost_has_gdg_domain
     (add_email_columns (sample_row\<lparr>Skills_Boost_Email := Some (''c'' @ gdg_pattern @ [])\<rparr>)) \<and>
   \<not> email_has_gdg_domain (add_email_columns (sample_row\<lparr>Email_Address := None\<rparr>)) \<and>
   \<not> skillsboost_has_gdg_domain (add_email_columns (sample_row\<lparr>Skills_Boost_Email := None\<rparr>))"
  using
    reserved_domain_is_substring_test
      [of "sample_row\<lparr>Email_Address := Some (''c'' @ gdg_pattern @ ''.evil.org'')\<rparr>" "''c''" "''.evil.org''"]
    reserved_domain_is_substring_test
      [of "sample_row\<lparr>Skills_Boost_Email := Some (''c'' @ gdg_pattern @ [])\<rparr>" "''c''" "[]"]
    reserved_domain_is_substring_test [of "sample_row\<lparr>Email_Address := None\<rparr>"]
    reserved_domain_is_substring_test [of "sample_row\<lparr>Skills_Boost_Email := None\<rparr>"]
  by simp

section \<open>The summary on the empty sheet\<close>

text \<open>
  C3. On the empty sheet the loop has nothing to do and the summary divides the valid
  count by the total count \<open>0\<close>: the run ends with \<open>ZeroDivisionError\<close>.
\<close>

theorem empty_dataset_divides_by_zero:
  "prepare [] = [] \<and> process_all w [] [] = Inr ([], []) \<and>
   generate_summary [] = Inl ZeroDivisionError \<and> main w [] = Inl ZeroDivisionError"
  by (simp add: main_def prepare_def grouper_def mark_duplicates_def sort_values_def
      generate_summary_def value_counts_def dropna_def percent_of_def valid_entries_def)

section \<open>The profile lookup and the processing loop\<close>

lemma check_profile_3_cases:
  "check_profile w url 3 reqs =
     (case w (length reqs) url of
        Inr s \<Rightarrow> (Some (success_data s), reqs @ [url])
      | Inl e0 \<Rightarrow>
          (case w (Suc (length reqs)) url of
             Inr s \<Rightarrow> (Some (success_data s), reqs @ [url, url])
           | Inl e1 \<Rightarrow>
               (case w (Suc (Suc (length reqs))) url of
                  Inr s \<Rightarrow> (Some (success_data s), reqs @ [url, url, url])
                | Inl e2 \<Rightarrow> (Some (error_data e2), reqs @ [url, url, url]))))"
  by (simp add: check_profile_def check_profile_from.simps [of w url 3] split: sum.splits)

lemma check_profile_3_returns:
  "\<exists>pd reqs'. check_profile w url 3 reqs = (Some pd, reqs') \<and> length reqs < length reqs'"
  by (simp add: check_profile_3_cases split: sum.splits)

lemma url_available_iff: "url_available r = (\<not> no_profile_url r)"
  by (simp add: url_available_def no_profile_url_def split: option.splits)

lemma early_verdict_iff:
  "fst (determine_qualification r) \<in> {INCOMPLETE_REGISTRATION, TERMS_DECLINED, NO_PROFILE_URL} \<longleftrightarrow>
     incomplete_registration r \<or> terms_declined r \<or> no_profile_url r"
  by (simp add: determine_qualification_def evidence_rules_def duplicate_entry_def)

lemma process_row_skipped:
  assumes "fst (determine_qualification r) \<in> {INCOMPLETE_REGISTRATION, TERMS_DECLINED, NO_PROFILE_URL}"
  shows "process_row w r reqs =
     Inr ((set_verdict (determine_qualification r) r)\<lparr>profile_status := Some ''skipped''\<rparr>, reqs)"
  using assms by (simp add: process_row_def Let_def)

lemma process_row_duplicate:
  assumes "fst (determine_qualification r) = DUPLICATE_ENTRY"
    and "check_profile w (the (Skills_Boost_Public_Profile_URL r)) 3 reqs = (Some pd, reqs')"
  shows "process_row w r reqs = Inr (store_profile pd (set_verdict (determine_qualification r) r), reqs')"
proof -
  have "\<not> no_profile_url r"
    using assms(1) by (auto simp: determine_qualification_def split: if_splits)
  then show ?thesis
    using assms by (simp add: process_row_def Let_def url_available_iff)
qed

lemma process_row_fetched:
  assumes "fst (determine_qualification r) \<notin> {INCOMPLETE_REGISTRATION, TERMS_DECLINED, NO_PROFILE_URL}"
    and "fst (determine_qualification r) \<noteq> DUPLICATE_ENTRY"
    and "check_profile w (the (Skills_Boost_Public_Profile_URL r)) 3 reqs = (Some pd, reqs')"
  shows "process_row w r reqs =
     Inr (set_verdict (determine_qualification (store_profile pd r)) (store_profile pd r), reqs')"
proof -
  have "\<not> no_profile_url r"
    using assms(1) early_verdict_iff by blast
  then show ?thesis
    using assms by (simp add: process_row_def Let_def url_available_iff)
qed

lemma process_row_total:
  "\<exists>r' reqs'. process_row w r reqs = Inr (r', reqs') \<and> qualification_status r' \<noteq> None"
proof -
  obtain pd reqs' where cp: "check_profile w (the (Skills_Boost_Public_Profile_URL r)) 3 reqs = (Some pd, reqs')"
    using check_profile_3_returns by blast
  consider (early) "fst (determine_qualification r) \<in> {INCOMPLETE_REGISTRATION, TERMS_DECLINED, NO_PROFILE_URL}"
    | (dup) "fst (determine_qualification r) = DUPLICATE_ENTRY"
    | (other) "fst (determine_qualification r) \<notin> {INCOMPLETE_REGISTRATION, TERMS_DECLINED, NO_PROFILE_URL}"
        "fst (determine_qualification r) \<noteq> DUPLICATE_ENTRY"
    by blast
  then show ?thesis
  proof cases
    case early
    then show ?thesis by (simp add: process_row_skipped set_verdict_def)
  next
    case dup
    then show ?thesis by (simp add: process_row_duplicate [OF dup cp] set_verdict_def store_profile_def)
  next
    case other
    then show ?thesis by (simp add: process_row_fetched [OF other cp] set_verdict_def)
  qed
qed

lemma process_all_total:
  "\<exists>df reqs'. process_all w rows reqs = Inr (df, reqs') \<and> length df = length rows \<and>
     (\<forall>x\<in>set df. qualification_status x \<noteq> None)"
proof (induction rows arbitrary: reqs)
  case Nil
  show ?case by simp
next
  case (Cons r rows)
  obtain r' reqs1 where r': "process_row w r reqs = Inr (r', reqs1)" "qualification_status r' \<noteq> None"
    using process_row_total by blast
  obtain df reqs2 where df: "process_all w rows reqs1 = Inr (df, reqs2)" "length df = length rows"
    "\<forall>x\<in>set df. qualification_status x \<noteq> None"
    using Cons.IH by blast
  show ?case
    using r' df by simp
qed


lemma verdict_without_evidence:
  assumes "\<not> incomplete_registration r" and "\<not> terms_declined r" and "\<not> no_profile_url r"
    and "\<not> duplicate_entry r"
  shows "fst (determine_qualification (store_profile (error_data e) r)) \<in> {FLAGGED_DIFF_ACCOUNT, UNKNOWN}"
proof -
  let ?r = "store_profile (error_data e) r"
  have same: "incomplete_registration ?r = incomplete_registration r"
    "terms_declined ?r = terms_declined r" "no_profile_url ?r = no_profile_url r"
    "duplicate_entry ?r = duplicate_entry r"
    by (simp_all add: store_profile_def incomplete_registration_def terms_declined_def
        no_profile_url_def duplicate_entry_def)
  have none: "profile_creation_year ?r = None" "profile_badge_count ?r = None"
    by (simp_all add: store_profile_def error_data_def)
  have "determine_qualification ?r = evidence_rules ?r"
    using assms by (simp add: determine_qualification_def same)
  moreover have "fst (evidence_rules ?r) \<in> {FLAGGED_DIFF_ACCOUNT, UNKNOWN}"
    by (simp add: evidence_rules_def hard_qualified_def qualified_tier2_def disqualified_def
        caution_pre2025_def pre2025_def truthy_def none)
  ultimately show ?thesis by simp
qed

text \<open>
  C6. When the three attempts for a URL all raise, \<open>check_profile\<close> returns: the result
  has every content field unset and the status \<open>error: \<close> followed by the message of
  the last attempt. A row with that URL which rules 1 to 3 do not match then gets a
  verdict (\<open>DUPLICATE_ENTRY\<close>, \<open>FLAGGED_DIFF_ACCOUNT\<close> or \<open>UNKNOWN\<close>), and the loop over
  any table ends without an error, every row holding a verdict.
\<close>

theorem failed_fetch_gives_error_evidence:
  assumes "w (length reqs) url = Inl e0" and "w (Suc (length reqs)) url = Inl e1"
    and "w (Suc (Suc (length reqs))) url = Inl e2"
  shows "check_profile w url 3 reqs = (Some (error_data e2), reqs @ [url, url, url]) \<and>
    creation_date (error_data e2) = None \<and> creation_year (error_data e2) = None \<and>
    badge_count (error_data e2) = None \<and> league (error_data e2) = None \<and>
    points (error_data e2) = None \<and> status (error_data e2) = ''error: '' @ e2 \<and>
    status (error_data e2) \<noteq> ''success'' \<and>
    (Skills_Boost_Public_Profile_URL r = Some url \<and> \<not> incomplete_registration r \<and>
     \<not> terms_declined r \<and> \<not> no_profile_url r \<longrightarrow>
       (\<exists>r'. process_row w r reqs = Inr (r', reqs @ [url, url, url]) \<and>
          profile_status r' = Some (''error: '' @ e2) \<and>
          profile_creation_year r' = None \<and> profile_badge_count r' = None \<and>
          profile_league r' = None \<and> profile_points r' = None \<and>
          qualification_status r' \<in> {Some DUPLICATE_ENTRY, Some FLAGGED_DIFF_ACCOUNT, Some UNKNOWN})) \<and>
    (\<exists>df reqs'. process_all w rows reqs0 = Inr (df, reqs') \<and> length df = length rows \<and>
       (\<forall>x\<in>set df. qualification_status x \<noteq> None))"
proof -
  have cp: "check_profile w url 3 reqs = (Some (error_data e2), reqs @ [url, url, url])"
    using assms by (simp add: check_profile_3_cases)
  have fields: "creation_date (error_data e2) = None \<and> creation_year (error_data e2) = None \<and>
    badge_count (error_data e2) = None \<and> league (error_data e2) = None \<and>
    points (error_data e2) = None \<and> status (error_data e2) = ''error: '' @ e2 \<and>
    status (error_data e2) \<noteq> ''success''"
    by (simp add: error_data_def)
  have engine: "\<exists>r'. process_row w r reqs = Inr (r', reqs @ [url, url, url]) \<and>
          profile_status r' = Some (''error: '' @ e2) \<and>
          profile_creation_year r' = None \<and> profile_badge_count r' = None \<and>
          profile_league r' = None \<and> profile_points r' = None \<and>
          qualification_status r' \<in> {Some DUPLICATE_ENTRY, Some FLAGGED_DIFF_ACCOUNT, Some UNKNOWN}"
    if u: "Skills_Boost_Public_Profile_URL r = Some url" and ok: "\<not> incomplete_registration r"
      "\<not> terms_declined r" "\<not> no_profile_url r"
  proof -
    have cp': "check_profile w (the (Skills_Boost_Public_Profile_URL r)) 3 reqs =
        (Some (error_data e2), reqs @ [url, url, url])"
      using cp u by simp
    have notearly: "fst (determine_qualification r) \<notin> {INCOMPLETE_REGISTRATION, TERMS_DECLINED, NO_PROFILE_URL}"
      using ok early_verdict_iff by blast
    show ?thesis
    proof (cases "duplicate_entry r")
      case True
      then have d: "fst (determine_qualification r) = DUPLICATE_ENTRY"
        using ok by (simp add: determine_qualification_def)
      show ?thesis
        by (simp add: process_row_duplicate [OF d cp'] store_profile_def set_verdict_def
            error_data_def d)
    next
      case False
      then have nd: "fst (determine_qualification r) \<noteq> DUPLICATE_ENTRY"
        using ok by (simp add: determine_qualification_def evidence_rules_not_dup)
      have "fst (determine_qualification (store_profile (error_data e2) r)) \<in> {FLAGGED_DIFF_ACCOUNT, UNKNOWN}"
        using verdict_without_evidence [OF ok False] .
      then show ?thesis
        by (auto simp: process_row_fetched [OF notearly nd cp'] store_profile_def set_verdict_def
            error_data_def)
    qed
  qed
  show ?thesis
    using cp fields engine process_all_total [of w rows reqs0] by blast
qed

theorem failed_fetch_gives_error_evidence_witness:
  "check_profile (\<lambda>n u. Inl ''timed out'') ''https://profile/1'' 3 [] =
     (Some (error_data ''timed out''), [''https://profile/1'', ''https://profile/1'', ''https://profile/1'']) \<and>
   status (error_data ''timed out'') = ''error: timed out'' \<and>
   (\<exists>r'. process_row (\<lambda>n u. Inl ''timed out'') sample_row [] =
       Inr (r', [''https://profile/1'', ''https://profile/1'', ''https://profile/1'']) \<and>
     profile_status r' = Some ''error: timed out'' \<and> profile_creation_year r' = None \<and>
     qualification_status r' \<in> {Some DUPLICATE_ENTRY, Some FLAGGED_DIFF_ACCOUNT, Some UNKNOWN}) \<and>
   (\<exists>df reqs'. process_all (\<lambda>n u. Inl ''timed out'') [sample_row] [] = Inr (df, reqs') \<and>
     length df = 1 \<and> (\<forall>x\<in>set df. qualification_status x \<noteq> None))"
proof -
  have h: "Skills_Boost_Public_Profile_URL sample_row = Some ''https://profile/1''"
    "\<not> incomplete_registration sample_row" "\<not> terms_declined sample_row"
    "\<not> no_profile_url sample_row"
    by (simp_all add: sample_row_def incomplete_registration_def terms_declined_def
        no_profile_url_def isna_def strip_def is_space_def)
  show ?thesis
    using failed_fetch_gives_error_evidence
      [of "\<lambda>n u. Inl ''timed out''" "[]" "''https://profile/1''" "''timed out''" "''timed out''"
        "''timed out''" sample_row "[sample_row]" "[]"] h
    by auto
qed

text \<open>
  C7. For a row first classified \<open>INCOMPLETE_REGISTRATION\<close>, \<open>TERMS_DECLINED\<close> or
  \<open>NO_PROFILE_URL\<close> the loop body makes no request, stores that verdict and leaves the
  evidence columns as they were. For a row first classified \<open>DUPLICATE_ENTRY\<close> it makes
  at least one request and stores the fetched fields, and the stored status and reason
  are those of the first classification.
\<close>

theorem early_verdicts_final_duplicates_keep_verdict:
  "(fst (determine_qualification r) \<in> {INCOMPLETE_REGISTRATION, TERMS_DECLINED, NO_PROFILE_URL} \<longrightarrow>
      (\<exists>r'. process_row w r reqs = Inr (r', reqs) \<and>
         qualification_status r' = Some (fst (determine_qualification r)) \<and>
         qualification_reason r' = Some (snd (determine_qualification r)) \<and>
         profile_status r' = Some ''skipped'' \<and>
         profile_creation_year r' = profile_creation_year r \<and>
         profile_badge_count r' = profile_badge_count r \<and>
         profile_league r' = profile_league r \<and> profile_points r' = profile_points r)) \<and>
   (fst (determine_qualification r) = DUPLICATE_ENTRY \<longrightarrow>
      (\<exists>pd reqs' r'.
         check_profile w (the (Skills_Boost_Public_Profile_URL r)) 3 reqs = (Some pd, reqs') \<and>
         length reqs < length reqs' \<and>
         process_row w r reqs = Inr (r', reqs') \<and>
         profile_creation_year r' = creation_year pd \<and> profile_badge_count r' = badge_count pd \<and>
         profile_league r' = league pd \<and> profile_points r' = points pd \<and>
         profile_status r' = Some (status pd) \<and>
         qualification_status r' = Some DUPLICATE_ENTRY \<and>
         qualification_reason r' = Some (snd (determine_qualification r))))"
proof (intro conjI impI)
  assume "fst (determine_qualification r) \<in> {INCOMPLETE_REGISTRATION, TERMS_DECLINED, NO_PROFILE_URL}"
  then show "\<exists>r'. process_row w r reqs = Inr (r', reqs) \<and>
         qualification_status r' = Some (fst (determine_qualification r)) \<and>
         qualification_reason r' = Some (snd (determine_qualification r)) \<and>
         profile_status r' = Some ''skipped'' \<and>
         profile_creation_year r' = profile_creation_year r \<and>
         profile_badge_count r' = profile_badge_count r \<and>
         profile_league r' = profile_league r \<and> profile_points r' = profile_points r"
    by (simp add: process_row_skipped set_verdict_def)
next
  assume d: "fst (determine_qualification r) = DUPLICATE_ENTRY"
  obtain pd reqs' where cp: "check_profile w (the (Skills_Boost_Public_Profile_URL r)) 3 reqs = (Some pd, reqs')"
    and len: "length reqs < length reqs'"
    using check_profile_3_returns by blast
  have "process_row w r reqs = Inr (store_profile pd (set_verdict (determine_qualification r) r), reqs')"
    using process_row_duplicate [OF d cp] .
  then show "\<exists>pd reqs' r'.
         check_profile w (the (Skills_Boost_Public_Profile_URL r)) 3 reqs = (Some pd, reqs') \<and>
         length reqs < length reqs' \<and>
         process_row w r reqs = Inr (r', reqs') \<and>
         profile_creation_year r' = creation_year pd \<and> profile_badge_count r' = badge_count pd \<and>
         profile_league r' = league pd \<and> profile_points r' = points pd \<and>
         profile_status r' = Some (status pd) \<and>
         qualification_status r' = Some DUPLICATE_ENTRY \<and>
         qualification_reason r' = Some (snd (determine_qualification r))"
    using cp len d by (simp add: store_profile_def set_verdict_def)
qed


theorem early_verdicts_final_duplicates_keep_verdict_witness:
  "fst (determine_qualification (sample_row\<lparr>Terms := Some None\<rparr>)) = TERMS_DECLINED \<and>
   (\<exists>r'. process_row (\<lambda>n u. Inl ''timed out'') (sample_row\<lparr>Terms := Some None\<rparr>) [] = Inr (r', []) \<and>
      qualification_status r' = Some TERMS_DECLINED \<and> profile_status r' = Some ''skipped'') \<and>
   fst (determine_qualification (sample_row\<lparr>is_duplicate := True, duplicate_position := Some 2\<rparr>))
     = DUPLICATE_ENTRY \<and>
   (\<exists>pd reqs' r'.
      check_profile (\<lambda>n u. Inl ''timed out'') ''https://profile/1'' 3 [] = (Some pd, reqs') \<and>
      0 < length reqs' \<and>
      process_row (\<lambda>n u. Inl ''timed out'')
        (sample_row\<lparr>is_duplicate := True, duplicate_position := Some 2\<rparr>) [] = Inr (r', reqs') \<and>
      profile_badge_count r' = badge_count pd \<and> profile_status r' = Some (status pd) \<and>
      qualification_status r' = Some DUPLICATE_ENTRY)"
proof -
  let ?t = "sample_row\<lparr>Terms := Some None\<rparr>"
  let ?d = "sample_row\<lparr>is_duplicate := True, duplicate_position := Some 2\<rparr>"
  have t: "fst (determine_qualification ?t) = TERMS_DECLINED"
    and d: "fst (determine_qualification ?d) = DUPLICATE_ENTRY"
    and u: "the (Skills_Boost_Public_Profile_URL ?d) = ''https://profile/1''"
    by (simp_all add: sample_row_def determine_qualification_def incomplete_registration_def
        terms_declined_def no_profile_url_def duplicate_entry_def isna_def strip_def is_space_def)
  show ?thesis
    using early_verdicts_final_duplicates_keep_verdict [of ?t "\<lambda>n u. Inl ''timed out''" "[]"]
      early_verdicts_final_duplicates_keep_verdict [of ?d "\<lambda>n u. Inl ''timed out''" "[]"]
    by (simp only: t d u) auto
qed

end
